theory Spec2Isabelle
  imports Complex_Main
begin

section \<open>Strings\<close>

text \<open>
  A Python \<open>str\<close> is modelled as a \<open>string\<close>: a list of 8-bit characters, each read as
  the code point of the same number (U+0000 to U+00FF). Text with code points above
  U+00FF is outside the model.
\<close>

definition py_isspace :: "char \<Rightarrow> bool" where
  \<comment> \<open>the characters \<open>str.isspace\<close>, \<open>str.strip\<close> and the regular expression \<open>\s\<close> take as white space\<close>
  "py_isspace c =
     (let n = (of_char c :: nat)
      in (9 \<le> n \<and> n \<le> 13) \<or> (28 \<le> n \<and> n \<le> 32) \<or> n = 133 \<or> n = 160)"

definition py_lower_char :: "char \<Rightarrow> char" where
  \<comment> \<open>the lower-case mapping of one code point: A-Z, and the Latin-1 capitals but the sign U+00D7\<close>
  "py_lower_char c =
     (let n = (of_char c :: nat)
      in if (65 \<le> n \<and> n \<le> 90) \<or> (192 \<le> n \<and> n \<le> 222 \<and> n \<noteq> 215)
         then char_of (n + 32) else c)"

definition py_upper_char :: "char \<Rightarrow> char" where
  \<comment> \<open>the upper-case mapping where it stays below U+0100; U+00B5, U+00DF and U+00FF,
      whose capitals are not 8-bit characters, are left as they are\<close>
  "py_upper_char c =
     (let n = (of_char c :: nat)
      in if (97 \<le> n \<and> n \<le> 122) \<or> (224 \<le> n \<and> n \<le> 254 \<and> n \<noteq> 247)
         then char_of (n - 32) else c)"

definition lower :: "string \<Rightarrow> string" where
  "lower s = map py_lower_char s"

fun capitalize :: "string \<Rightarrow> string" where
  "capitalize [] = []"
| "capitalize (c # cs) = py_upper_char c # lower cs"

definition startswith :: "string \<Rightarrow> string \<Rightarrow> bool" where
  "startswith s p = (take (length p) s = p)"

definition endswith :: "string \<Rightarrow> string \<Rightarrow> bool" where
  "endswith s p = (length p \<le> length s \<and> drop (length s - length p) s = p)"

fun contains :: "string \<Rightarrow> string \<Rightarrow> bool" where
  \<comment> \<open>\<open>contains sub s\<close> is Python's \<open>sub in s\<close>\<close>
  "contains sub [] = (sub = [])"
| "contains sub (c # cs) = (startswith (c # cs) sub \<or> contains sub cs)"

definition strip :: "string \<Rightarrow> string" where
  "strip s = rev (dropWhile py_isspace (rev (dropWhile py_isspace s)))"

function split_acc :: "string \<Rightarrow> string \<Rightarrow> string \<Rightarrow> string list" where
  \<comment> \<open>\<open>split_acc sep cur s\<close>: the segment being read is \<open>cur\<close>, the text left is \<open>s\<close>\<close>
  "split_acc sep cur [] = [cur]"
| "split_acc sep cur (c # cs) =
     (if startswith (c # cs) sep
      then cur # split_acc sep [] (drop (length sep - 1) cs)
      else split_acc sep (cur @ [c]) cs)"
  by pat_completeness auto
termination
  by (relation "measure (\<lambda>(sep, cur, s). length s)") auto

definition split :: "string \<Rightarrow> string \<Rightarrow> string list" where
  \<comment> \<open>\<open>split s sep\<close> is \<open>s.split(sep)\<close> for a separator that is not empty\<close>
  "split s sep = split_acc sep [] s"

fun join :: "string \<Rightarrow> string list \<Rightarrow> string" where
  \<comment> \<open>\<open>join sep xs\<close> is \<open>sep.join(xs)\<close>\<close>
  "join sep [] = []"
| "join sep [x] = x"
| "join sep (x # y # ys) = x @ sep @ join sep (y # ys)"

section \<open>Regular expressions\<close>

text \<open>
  The patterns of \<open>_parse_response\<close> use literals, character sets, \<open>\s\<close>, the dot, greedy
  \<open>*\<close> and \<open>+\<close> on one-character items, greedy \<open>?\<close>, alternation, capture groups and
  \<open>$\<close>. They are always compiled with \<open>IGNORECASE | MULTILINE | DOTALL\<close>, so the matcher
  has these three flags built in: literals and sets compare lower-cased characters, the
  dot takes every character, and \<open>$\<close> holds at the end of the text and before a newline.

  The matcher is the backtracking one of the library: it returns every way to match,
  as the text left over and the groups captured, in the order backtracking tries them.
\<close>

datatype cclass = CLit char | CSet "char list" | CSpace | CAny

datatype regex =
    Eps
  | Chr cclass
  | Star cclass
  | Plus cclass
  | Opt regex
  | Seq regex regex
  | Alt regex regex
  | Group nat regex
  | Eol

type_synonym groups = "(nat \<times> string) list"

fun cmatch :: "cclass \<Rightarrow> char \<Rightarrow> bool" where
  "cmatch (CLit c) x = (py_lower_char x = py_lower_char c)"
| "cmatch (CSet cs) x = (py_lower_char x \<in> set (map py_lower_char cs))"
| "cmatch CSpace x = py_isspace x"
| "cmatch CAny x = True"

fun star_rest :: "cclass \<Rightarrow> string \<Rightarrow> string list" where
  \<comment> \<open>what a greedy \<open>*\<close> can leave: the longest run first, then one character less each time\<close>
  "star_rest k [] = [[]]"
| "star_rest k (x # xs) = (if cmatch k x then star_rest k xs @ [x # xs] else [x # xs])"

fun plus_rest :: "cclass \<Rightarrow> string \<Rightarrow> string list" where
  "plus_rest k [] = []"
| "plus_rest k (x # xs) = (if cmatch k x then star_rest k xs else [])"

fun rmatch :: "regex \<Rightarrow> string \<Rightarrow> groups \<Rightarrow> (string \<times> groups) list" where
  "rmatch Eps s g = [(s, g)]"
| "rmatch (Chr k) s g =
     (case s of [] \<Rightarrow> [] | x # xs \<Rightarrow> if cmatch k x then [(xs, g)] else [])"
| "rmatch (Star k) s g = map (\<lambda>t. (t, g)) (star_rest k s)"
| "rmatch (Plus k) s g = map (\<lambda>t. (t, g)) (plus_rest k s)"
| "rmatch (Opt r) s g = rmatch r s g @ [(s, g)]"
| "rmatch (Seq r1 r2) s g = concat (map (\<lambda>(t, h). rmatch r2 t h) (rmatch r1 s g))"
| "rmatch (Alt r1 r2) s g = rmatch r1 s g @ rmatch r2 s g"
| "rmatch (Group i r) s g =
     map (\<lambda>(t, h). (t, (i, take (length s - length t) s) # h)) (rmatch r s g)"
| "rmatch Eol s g = (case s of [] \<Rightarrow> [(s, g)] | x # xs \<Rightarrow> if x = CHR 0x0A then [(s, g)] else [])"

definition re_match :: "regex \<Rightarrow> string \<Rightarrow> groups option" where
  \<comment> \<open>\<open>re.match\<close>: the first match that starts at the beginning of the text, as its groups\<close>
  "re_match r s = (case rmatch r s [] of [] \<Rightarrow> None | (t, g) # _ \<Rightarrow> Some g)"

fun re_search :: "regex \<Rightarrow> string \<Rightarrow> groups option" where
  \<comment> \<open>\<open>re.search\<close>: the first match at the leftmost position that has one\<close>
  "re_search r [] = re_match r []"
| "re_search r (c # cs) =
     (case re_match r (c # cs) of Some g \<Rightarrow> Some g | None \<Rightarrow> re_search r cs)"

definition group :: "groups \<Rightarrow> nat \<Rightarrow> string option" where
  \<comment> \<open>\<open>matched.group(i)\<close>; \<open>None\<close> for a group that took no part in the match\<close>
  "group g i = map_of g i"

definition seqs :: "regex list \<Rightarrow> regex" where
  "seqs rs = foldr Seq rs Eps"

definition lit :: "string \<Rightarrow> regex" where
  "lit w = seqs (map (\<lambda>c. Chr (CLit c)) w)"

section \<open>The judgment parser\<close>

datatype py_error =
    AttributeError
  | KeyError string
  | IndexError
  | ValueError
  | AssertionError
  | Unmodelled

definition quote :: regex where
  \<comment> \<open>\<open>['\"]?\<close>\<close>
  "quote = Opt (Chr (CSet [CHR 0x27, CHR 0x22]))"

definition yes_no :: regex where
  \<comment> \<open>\<open>yes|no\<close>\<close>
  "yes_no = Alt (lit ''yes'') (lit ''no'')"

definition stop :: regex where
  \<comment> \<open>\<open>[.!]?\<close>\<close>
  "stop = Opt (Chr (CSet ''.!''))"

definition patterns :: "(regex \<times> nat) list" where
  \<comment> \<open>each pattern with the index of the group that holds the token\<close>
  "patterns =
    [(seqs [Star CAny, quote, Group 1 yes_no, Opt (Chr (CLit (CHR ''.''))), quote, stop, Eol], 1),
     (seqs [Star CAny, lit ''I can answer'', Plus CSpace, quote, Group 1 yes_no, quote, stop], 1),
     (seqs [Star CAny, lit ''I would say'', Plus CSpace, quote, Group 1 yes_no, quote, stop], 1),
     (seqs [Star CAny, lit ''I must say'', Plus CSpace, quote, Group 1 yes_no, quote, stop], 1),
     (seqs [Star CAny, lit ''my '', Opt (Group 1 (lit ''final '')), lit ''judgment is'',
            Plus CSpace, quote, Group 2 yes_no, quote, stop], 2),
     (seqs [Star CAny, lit ''I would judge the candidate answer as'', Plus CSpace, quote,
            Group 1 yes_no, quote, stop], 1),
     (seqs [Star CAny, Plus CSpace, quote, Group 1 yes_no, quote, Opt (Chr (CLit (CHR '',''))),
            lit '' the candidate'', Opt (Group 2 (lit '' answer'')), lit '' is''], 1),
     (seqs [Star CAny, Chr (CSet ''jJ''), lit ''udgment:'', Plus CSpace, quote, Group 1 yes_no,
            Opt (Chr (CLit (CHR ''.''))), quote], 1)]"

definition correct_patterns :: "regex list" where
  "correct_patterns =
    [seqs [lit ''candidate'', Opt (Group 1 (lit '' answer'')), lit '' is correct''],
     lit (''candidate'' @ [CHR 0x27] @ ''s correct'')]"

fun first_pattern :: "(regex \<times> nat) list \<Rightarrow> string \<Rightarrow> py_error + string" where
  \<comment> \<open>the loop over \<open>patterns\<close>: the value of \<open>acceptable\<close> when the loop ends\<close>
  "first_pattern [] response = Inr []"
| "first_pattern ((pattern, match_idx) # ps) response =
     (case re_match pattern response of
        None \<Rightarrow> first_pattern ps response
      | Some matched \<Rightarrow>
          (case group matched match_idx of
             None \<Rightarrow> Inl AttributeError
           | Some tok \<Rightarrow> Inr (capitalize tok)))"

fun first_correct :: "regex list \<Rightarrow> string \<Rightarrow> string" where
  \<comment> \<open>the loop over \<open>correct_patterns\<close>, entered with \<open>acceptable\<close> empty\<close>
  "first_correct [] response = []"
| "first_correct (pattern # ps) response =
     (case re_search pattern response of
        None \<Rightarrow> first_correct ps response
      | Some matched \<Rightarrow> ''Yes'')"

datatype log_entry =
    Warning string
  | ApiWarning  \<comment> \<open>the warning of a failed request; its text holds the exception's message\<close>

definition invalid_response :: "string \<Rightarrow> string \<Rightarrow> string \<Rightarrow> string" where
  \<comment> \<open>the text of the warning for a response that nothing matched\<close>
  "invalid_response question candidate_answer response =
     ''Invalid response to `'' @ question @ ''` & `'' @ candidate_answer @ ''`: '' @ response"

definition yes_bit :: "string \<Rightarrow> int" where
  \<comment> \<open>\<open>int(acceptable == "Yes")\<close>\<close>
  "yes_bit acceptable = (if acceptable = ''Yes'' then 1 else 0)"

definition parse_response :: "string \<Rightarrow> string \<Rightarrow> string \<Rightarrow> py_error + (int \<times> log_entry list)" where
  \<comment> \<open>\<open>_parse_response\<close>: the judgment and the warnings logged\<close>
  "parse_response response candidate_answer question =
     (if startswith (lower response) ''yes'' then Inr (yes_bit ''Yes'', [])
      else if startswith (lower response) ''no'' then Inr (yes_bit ''No'', [])
      else
        (case first_pattern patterns response of
           Inl e \<Rightarrow> Inl e
         | Inr acceptable \<Rightarrow>
             (let acceptable' =
                    (if acceptable = [] then first_correct correct_patterns response
                     else acceptable)
              in Inr (yes_bit acceptable',
                      if acceptable' = []
                      then [Warning (invalid_response question candidate_answer response)]
                      else []))))"


section \<open>The prompt builder\<close>

datatype pyval = Str string | PyNone

fun str_of :: "pyval \<Rightarrow> string" where
  \<comment> \<open>how \<open>str.format\<close> renders a value in a field without a format specification\<close>
  "str_of (Str s) = s"
| "str_of PyNone = ''None''"

type_synonym kwargs = "(string \<times> pyval) list"

definition field_unmodelled :: "string \<Rightarrow> bool" where
  \<comment> \<open>a replacement field with a conversion, a format specification, an attribute, an index
      or a nested field\<close>
  "field_unmodelled name = (\<exists>c \<in> set name. c \<in> set ''{[.!:'')"

definition is_digit :: "char \<Rightarrow> bool" where
  "is_digit c = (c \<in> set ''0123456789'')"

definition field_value :: "kwargs \<Rightarrow> string \<Rightarrow> py_error + string" where
  \<comment> \<open>the text of the field \<open>{name}\<close>: an empty or numbered field asks for a positional
      argument, and \<open>format\<close> is called with keyword arguments only\<close>
  "field_value kw name =
     (if field_unmodelled name then Inl Unmodelled
      else if list_all is_digit name then Inl IndexError
      else (case map_of kw name of
              None \<Rightarrow> Inl (KeyError name)
            | Some v \<Rightarrow> Inr (str_of v)))"

definition prepend :: "string \<Rightarrow> py_error + string \<Rightarrow> py_error + string" where
  "prepend s r = (case r of Inl e \<Rightarrow> Inl e | Inr t \<Rightarrow> Inr (s @ t))"

fun format_from :: "kwargs \<Rightarrow> string option \<Rightarrow> string \<Rightarrow> py_error + string" where
  \<comment> \<open>\<open>format_from kw field s\<close>: \<open>field\<close> is \<open>None\<close> in literal text and \<open>Some name\<close>
      inside a replacement field, with the part of its name read so far\<close>
  "format_from kw None [] = Inr []"
| "format_from kw None (c # cs) =
     (if c = CHR ''{'' then
        (case cs of
           [] \<Rightarrow> Inl ValueError
         | d # ds \<Rightarrow>
             if d = CHR ''{'' then prepend ''{'' (format_from kw None ds)
             else format_from kw (Some []) cs)
      else if c = CHR ''}'' then
        (case cs of
           [] \<Rightarrow> Inl ValueError
         | d # ds \<Rightarrow>
             if d = CHR ''}'' then prepend ''}'' (format_from kw None ds)
             else Inl ValueError)
      else prepend [c] (format_from kw None cs))"
| "format_from kw (Some name) [] = Inl ValueError"
| "format_from kw (Some name) (c # cs) =
     (if c = CHR ''}'' then
        (case field_value kw name of
           Inl e \<Rightarrow> Inl e
         | Inr v \<Rightarrow> prepend v (format_from kw None cs))
      else format_from kw (Some (name @ [c])) cs)"

definition format :: "string \<Rightarrow> kwargs \<Rightarrow> py_error + string" where
  \<comment> \<open>\<open>template.format(**kw)\<close>, for templates whose fields are plain names\<close>
  "format template kw = format_from kw None template"

record question =
  qtext :: string  \<comment> \<open>the field \<open>text\<close>\<close>
  answers :: "string list"

datatype candidate =
    Candidate question string  \<comment> \<open>a \<open>Candidate\<close> object: its question and its answer\<close>
  | DictCandidate "string list" string string
      \<comment> \<open>a dict with the keys \<open>answers\<close>, \<open>candidate_answer\<close> and \<open>question\<close>\<close>

datatype turn = Turn (role: string) (content: string)

datatype prompt = Flat string | Chat "turn list"

definition CONVERSATIONAL_MODELS :: "string list" where
  "CONVERSATIONAL_MODELS =
    [''meta-llama/Llama-2-7b-chat-hf'',
     ''meta-llama/Llama-2-13b-chat-hf'',
     ''mistralai/Mistral-7B-Instruct-v0.1'',
     ''HuggingFaceH4/zephyr-7b-beta'',
     ''allenai/tulu-2-7b'',
     ''allenai/tulu-2-dpo-7b'']"

definition is_conversational :: "string \<Rightarrow> bool" where
  "is_conversational model_name_or_path = (model_name_or_path \<in> set CONVERSATIONAL_MODELS)"

definition render_answers :: "string list \<Rightarrow> string" where
  \<comment> \<open>\<open>", ".join([f'"{a}"' for a in gold_answers])\<close>\<close>
  "render_answers gold_answers = join '', '' (map (\<lambda>a. [CHR 0x22] @ a @ [CHR 0x22]) gold_answers)"

definition normalize_question :: "string \<Rightarrow> string" where
  "normalize_question question = (if \<not> endswith question ''?'' then question @ ''?'' else question)"

definition lookup_passage :: "(string \<times> string) list \<Rightarrow> string \<Rightarrow> pyval" where
  \<comment> \<open>\<open>context_passage.get(question, context_passage.get(question[:-1], None))\<close>\<close>
  "lookup_passage context_passage question =
     (case map_of context_passage question of
        Some p \<Rightarrow> Str p
      | None \<Rightarrow>
          (case map_of context_passage (butlast question) of
             Some p \<Rightarrow> Str p
           | None \<Rightarrow> PyNone))"

fun candidate_fields :: "candidate \<Rightarrow> string list \<times> string \<times> string" where
  \<comment> \<open>gold answers, candidate answer and question text, from either kind of candidate\<close>
  "candidate_fields (Candidate q a) = (answers q, a, qtext q)"
| "candidate_fields (DictCandidate gold a question) = (gold, a, question)"

definition build_prompt ::
  "string \<Rightarrow> (string \<times> string) list option \<Rightarrow> candidate \<Rightarrow> py_error + string" where
  \<comment> \<open>the filled template of one candidate; \<open>context_passage\<close> is the loaded context file, a
      dict listed as its items, or \<open>None\<close> without such a file\<close>
  "build_prompt prompt_template context_passage candidate =
     (case candidate_fields candidate of
        (gold, candidate_answer, question0) \<Rightarrow>
          (let gold_answers = render_answers gold;
               question = normalize_question question0
           in case context_passage of
                Some (item # items) \<Rightarrow>
                  format prompt_template
                    [(''q'', Str question), (''answers'', Str gold_answers),
                     (''candidate_answer'', Str candidate_answer),
                     (''passage'', lookup_passage (item # items) question)]
              | _ \<Rightarrow>
                  format prompt_template
                    [(''q'', Str question), (''answers'', Str gold_answers),
                     (''candidate_answer'', Str candidate_answer)]))"

definition to_example :: "string \<Rightarrow> string \<Rightarrow> prompt" where
  \<comment> \<open>the filled template as the model takes it: a chat for a conversational model\<close>
  "to_example model_name_or_path prompt =
     (if is_conversational model_name_or_path then
        (let (instruction, content) =
               (if contains ''Mistral'' model_name_or_path \<or> contains ''tulu-2'' model_name_or_path
                then (None, prompt)
                else (let sections = split prompt ''###''
                      in (if length sections > 1 then Some (join ''###'' (butlast sections))
                          else None,
                          strip (last sections))))
         in Chat ((case instruction of
                     None \<Rightarrow> []
                   | Some i \<Rightarrow> if i = [] then [] else [Turn ''system'' i])
                  @ [Turn ''user'' content]))
      else Flat prompt)"

fun prepare_loop ::
  "string \<Rightarrow> string \<Rightarrow> (string \<times> string) list option \<Rightarrow> candidate list \<Rightarrow> py_error + prompt list" where
  "prepare_loop prompt_template model_name_or_path context_passage [] = Inr []"
| "prepare_loop prompt_template model_name_or_path context_passage (candidate # candidates) =
     (case build_prompt prompt_template context_passage candidate of
        Inl e \<Rightarrow> Inl e
      | Inr prompt \<Rightarrow>
          (case prepare_loop prompt_template model_name_or_path context_passage candidates of
             Inl e \<Rightarrow> Inl e
           | Inr prompts \<Rightarrow> Inr (to_example model_name_or_path prompt # prompts)))"

definition prepare ::
  "candidate list \<Rightarrow> string \<Rightarrow> string \<Rightarrow> (string \<times> string) list option \<Rightarrow> py_error + prompt list" where
  \<comment> \<open>\<open>_prepare\<close>; \<open>prompt_file\<close> is the text of the template file\<close>
  "prepare candidates prompt_file model_name_or_path context_passage =
     prepare_loop (strip prompt_file) model_name_or_path context_passage candidates"

section \<open>The second-pass builder\<close>

datatype response = One string | Many "string list"

datatype entry =
    D turn  \<comment> \<open>a turn\<close>
  | L "turn list"  \<comment> \<open>a list of turns, as one element\<close>

definition follow_up :: string where
  "follow_up = ''Please tell me your final judgment in only '' @ [CHR 0x27] @ ''yes'' @ [CHR 0x27]
     @ '' or '' @ [CHR 0x27] @ ''no'' @ [CHR 0x27]"

definition truncate :: "string \<Rightarrow> string" where
  "truncate r = (if contains ''###'' r then strip (hd (split r ''###'')) else r)"

definition history_of :: "turn list \<Rightarrow> entry list" where
  \<comment> \<open>\<open>append\<close> adds \<open>chat[1:]\<close> as one element, \<open>extend\<close> adds the turns of \<open>chat\<close>\<close>
  "history_of chat =
     (case chat of
        [] \<Rightarrow> []
      | t # ts \<Rightarrow> if role t = ''system'' then [L ts] else map D chat)"

fun responses_of :: "response \<Rightarrow> string list" where
  "responses_of (One r) = [r]"
| "responses_of (Many rs) = rs"

definition prepare_second_pass :: "turn list list \<Rightarrow> response list \<Rightarrow> entry list list" where
  \<comment> \<open>\<open>_prepare_second_pass\<close>\<close>
  "prepare_second_pass chats model_responses =
     concat (map (\<lambda>(chat, resp).
                    map (\<lambda>r. history_of chat
                              @ [D (Turn ''assistant'' (truncate r)), D (Turn ''user'' follow_up)])
                        (responses_of resp))
                 (zip chats model_responses))"

section \<open>The evaluation driver\<close>

datatype payload =
    PText string
  | PTurn turn

type_synonym request = "string \<times> payload \<times> bool"
  \<comment> \<open>the JSON body of a request: \<open>model\<close>, \<open>prompt\<close> and \<open>stream\<close>\<close>

type_synonym endpoint = "nat \<Rightarrow> request \<Rightarrow> string option"
  \<comment> \<open>the answer of the inference server to the request of a given number: the text under
      \<open>response\<close>, or \<open>None\<close> when the call or the decoding raises\<close>

definition prompt_text :: "prompt \<Rightarrow> py_error + payload" where
  "prompt_text p =
     (case p of
        Flat s \<Rightarrow> Inr (PText s)
      | Chat ts \<Rightarrow>
          if ts = [] then Inl IndexError
          else if role (last ts) = ''user'' then Inr (PText (content (last ts)))
          else Inr (PTurn (last ts)))"

fun send_all ::
  "endpoint \<Rightarrow> string \<Rightarrow> nat \<Rightarrow> prompt list
     \<Rightarrow> py_error + (string list \<times> request list \<times> log_entry list)" where
  \<comment> \<open>the first loop of \<open>llm_eval\<close>: the responses, the requests sent and the warnings logged\<close>
  "send_all ep model_name_or_path n [] = Inr ([], [], [])"
| "send_all ep model_name_or_path n (p # ps) =
     (case prompt_text p of
        Inl e \<Rightarrow> Inl e
      | Inr t \<Rightarrow>
          (let req = (model_name_or_path, t, False);
               (resp, logged) = (case ep n req of Some r \<Rightarrow> (r, []) | None \<Rightarrow> ([], [ApiWarning]))
           in case send_all ep model_name_or_path (Suc n) ps of
                Inl e \<Rightarrow> Inl e
              | Inr (responses, requests, logs) \<Rightarrow>
                  Inr (resp # responses, req # requests, logged @ logs)))"

definition py_round :: "rat \<Rightarrow> int" where
  \<comment> \<open>\<open>round\<close> with one argument: to the nearest integer, a tie to the even one\<close>
  "py_round x =
     (let f = \<lfloor>x\<rfloor>; d = x - of_int f
      in if d < 1 / 2 then f else if 1 / 2 < d then f + 1 else if even f then f else f + 1)"

type_synonym eval_output = "int \<times> string \<times> int list"

fun judge_all ::
  "candidate list \<Rightarrow> string list \<Rightarrow> py_error + (eval_output list \<times> log_entry list)" where
  \<comment> \<open>the second loop of \<open>llm_eval\<close>, over \<open>range(len(candidates))\<close>\<close>
  "judge_all [] responses = Inr ([], [])"
| "judge_all (c # cs) responses =
     (case responses of
        [] \<Rightarrow> Inl IndexError
      | resp # rest \<Rightarrow>
          (case c of
             DictCandidate gold a question \<Rightarrow> Inl AttributeError
           | Candidate q a \<Rightarrow>
               (case parse_response resp a (qtext q) of
                  Inl e \<Rightarrow> Inl e
                | Inr (j, logged) \<Rightarrow>
                    (let num_judgments = 1;
                         judgments = [j];
                         acceptable_count = sum_list judgments
                     in case judge_all cs rest of
                          Inl e \<Rightarrow> Inl e
                        | Inr (outputs, logs) \<Rightarrow>
                            Inr ((py_round (of_int acceptable_count / of_int num_judgments),
                                  resp, judgments) # outputs,
                                 logged @ logs)))))"

definition llm_eval ::
  "string \<Rightarrow> candidate list \<Rightarrow> string option \<Rightarrow> (string \<times> string) list option \<Rightarrow> endpoint
     \<Rightarrow> py_error + (eval_output list \<times> request list \<times> log_entry list)" where
  \<comment> \<open>\<open>llm_eval\<close>: its outputs, with the requests it sent and the warnings it logged;
      \<open>prompt_file\<close> is the text of the template file, \<open>None\<close> when no file is given or found\<close>
  "llm_eval model_name_or_path candidates prompt_file context_passage ep =
     (case prompt_file of
        None \<Rightarrow> Inl AssertionError
      | Some file \<Rightarrow>
          (case prepare candidates file model_name_or_path context_passage of
             Inl e \<Rightarrow> Inl e
           | Inr examples \<Rightarrow>
               (case send_all ep model_name_or_path 0 examples of
                  Inl e \<Rightarrow> Inl e
                | Inr (responses, requests, logs1) \<Rightarrow>
                    (case judge_all candidates responses of
                       Inl e \<Rightarrow> Inl e
                     | Inr (outputs, logs2) \<Rightarrow> Inr (outputs, requests, logs1 @ logs2)))))"

section \<open>Predicates on responses\<close>



definition unmatched :: "string \<Rightarrow> bool" where
  \<comment> \<open>the response does not start with yes or no and no pattern of the list matches it\<close>
  "unmatched response =
     (\<not> startswith (lower response) ''yes'' \<and> \<not> startswith (lower response) ''no''
      \<and> list_all (\<lambda>p. re_match (fst p) response = None) patterns)"

definition unaffirmed :: "string \<Rightarrow> bool" where
  \<comment> \<open>no pattern of the second list is found in the response\<close>
  "unaffirmed response = list_all (\<lambda>p. re_search p response = None) correct_patterns"

definition affirms :: "string \<Rightarrow> bool" where
  \<comment> \<open>the response holds one of the three phrases, in any case\<close>
  "affirms response =
     (\<exists>pre mid post. response = pre @ mid @ post \<and>
        lower mid \<in> {''candidate answer is correct'', ''candidate is correct'',
                      ''candidate'' @ [CHR 0x27] @ ''s correct''})"

fun binds :: "regex \<Rightarrow> nat \<Rightarrow> bool" where
  \<comment> \<open>every match of the expression sets the group\<close>
  "binds (Group j r) i = (i = j \<or> binds r i)"
| "binds (Seq r1 r2) i = (binds r1 i \<or> binds r2 i)"
| "binds (Alt r1 r2) i = (binds r1 i \<and> binds r2 i)"
| "binds r i = False"


section \<open>Evaluating characters\<close>

lemma py_lower_char_code [code]:
  "py_lower_char (Char b0 b1 b2 b3 b4 b5 b6 b7) =
     (if b6 \<and> \<not> b5 \<and>
         (if b7 then \<not> (b0 \<and> b1 \<and> b2 \<and> b4)
          else (b0 \<or> b1 \<or> b2 \<or> b3 \<or> b4) \<and> \<not> (b4 \<and> b3 \<and> (b2 \<or> (b1 \<and> b0))))
      then Char b0 b1 b2 b3 b4 True b6 b7
      else Char b0 b1 b2 b3 b4 b5 b6 b7)"
  by (cases b0; cases b1; cases b2; cases b3; cases b4; cases b5; cases b6; cases b7;
      simp add: py_lower_char_def char_of_def bit_Suc_0_iff)

lemma py_upper_char_code [code]:
  "py_upper_char (Char b0 b1 b2 b3 b4 b5 b6 b7) =
     (if b6 \<and> b5 \<and>
         (if b7 then \<not> (b0 \<and> b1 \<and> b2 \<and> b4)
          else (b0 \<or> b1 \<or> b2 \<or> b3 \<or> b4) \<and> \<not> (b4 \<and> b3 \<and> (b2 \<or> (b1 \<and> b0))))
      then Char b0 b1 b2 b3 b4 False b6 b7
      else Char b0 b1 b2 b3 b4 b5 b6 b7)"
  by (cases b0; cases b1; cases b2; cases b3; cases b4; cases b5; cases b6; cases b7;
      simp add: py_upper_char_def char_of_def bit_Suc_0_iff)

lemma py_isspace_code [code]:
  "py_isspace (Char b0 b1 b2 b3 b4 b5 b6 b7) =
     (if b7 then \<not> b6 \<and> \<not> b4 \<and> \<not> b3 \<and> \<not> b1 \<and> (b5 \<and> \<not> b2 \<and> \<not> b0 \<or> \<not> b5 \<and> b2 \<and> b0)
      else \<not> b6 \<and>
        (if b5 then \<not> b4 \<and> \<not> b3 \<and> \<not> b2 \<and> \<not> b1 \<and> \<not> b0
         else if b4 then b3 \<and> b2
         else b3 \<and> \<not> (b2 \<and> b1) \<and> (b0 \<or> b1 \<or> b2)))"
  by (cases b0; cases b1; cases b2; cases b3; cases b4; cases b5; cases b6; cases b7;
      simp add: py_isspace_def)

section \<open>Properties of the judgment parser\<close>

lemma no_not_yes: "startswith s ''no'' \<Longrightarrow> \<not> startswith s ''yes''"
  by (cases s; cases "tl s"; cases "tl (tl s)") (auto simp: startswith_def)

text \<open>
  C1. A response that starts with "yes", compared case-insensitively, is judged 1, and one
  that starts with "no" is judged 0, whatever the candidate answer and the question are.
\<close>

theorem parse_response_yes_no_prefix:
  "(startswith (lower response) ''yes'' \<longrightarrow>
      parse_response response candidate_answer question = Inr (1, []))
   \<and> (startswith (lower response) ''no'' \<longrightarrow>
      parse_response response candidate_answer question = Inr (0, []))"
  using no_not_yes [of "lower response"]
  by (auto simp: parse_response_def yes_bit_def)

theorem parse_response_yes_no_prefix_witness:
  "startswith (lower ''YES, it is'') ''yes''
   \<and> parse_response ''YES, it is'' ''Biden'' ''who?'' = Inr (1, [])
   \<and> startswith (lower ''No way'') ''no''
   \<and> parse_response ''No way'' ''Biden'' ''who?'' = Inr (0, [])"
proof -
  have y: "startswith (lower ''YES, it is'') ''yes''" by code_simp
  have n: "startswith (lower ''No way'') ''no''" by code_simp
  show ?thesis
    using y n parse_response_yes_no_prefix [of "''YES, it is''" "''Biden''" "''who?''"]
        parse_response_yes_no_prefix [of "''No way''" "''Biden''" "''who?''"]
    by simp
qed

lemma first_pattern_none:
  "list_all (\<lambda>p. re_match (fst p) response = None) ps \<Longrightarrow> first_pattern ps response = Inr []"
  by (induction ps) auto

lemma first_correct_none:
  "list_all (\<lambda>p. re_search p response = None) ps \<Longrightarrow> first_correct ps response = []"
  by (induction ps) auto

lemma first_correct_some:
  "\<exists>p \<in> set ps. re_search p response \<noteq> None \<Longrightarrow> first_correct ps response = ''Yes''"
  by (induction ps) (auto split: option.splits)

lemma contains_startswith: "startswith s sub \<Longrightarrow> contains sub s"
  by (cases s) (auto simp: startswith_def)

lemma contains_later: "contains sub s \<Longrightarrow> contains sub (pre @ s)"
  by (induction pre) auto

lemma contains_infix: "contains sub (pre @ sub @ post)"
  by (rule contains_later, rule contains_startswith) (simp add: startswith_def)

lemma parse_response_unmatched:
  assumes "unmatched response"
  shows "parse_response response candidate_answer question =
           (case first_correct correct_patterns response of
              [] \<Rightarrow> Inr (0, [Warning (invalid_response question candidate_answer response)])
            | a # as \<Rightarrow> Inr (yes_bit (a # as), []))"
  using assms first_pattern_none [of response patterns]
  by (auto simp: unmatched_def parse_response_def yes_bit_def Let_def split: list.splits)

lemma lit_Nil: "lit [] = Eps"
  by (simp add: lit_def seqs_def)

lemma lit_Cons: "lit (c # w) = Seq (Chr (CLit c)) (lit w)"
  by (simp add: lit_def seqs_def)

lemma rmatch_lit:
  "lower mid = lower w \<Longrightarrow> rmatch (lit w) (mid @ post) g = [(post, g)]"
proof (induction w arbitrary: mid)
  case Nil
  then show ?case by (simp add: lit_Nil lower_def)
next
  case (Cons c w)
  then obtain m mid' where mid: "mid = m # mid'" "py_lower_char m = py_lower_char c"
      "lower mid' = lower w"
    by (cases mid) (auto simp: lower_def)
  with Cons.IH [of mid'] show ?case
    by (simp add: lit_Cons)
qed

lemma lower_split:
  "lower mid = a @ b \<Longrightarrow> \<exists>m1 m2. mid = m1 @ m2 \<and> lower m1 = a \<and> lower m2 = b"
  unfolding lower_def by (metis map_eq_append_conv)

lemma re_match_some: "rmatch r s [] \<noteq> [] \<Longrightarrow> re_match r s \<noteq> None"
  by (auto simp: re_match_def split: list.splits)

lemma re_search_here: "re_match r s \<noteq> None \<Longrightarrow> re_search r s \<noteq> None"
  by (cases s) (auto split: option.splits)

lemma re_search_later: "re_search r s \<noteq> None \<Longrightarrow> re_search r (pre @ s) \<noteq> None"
  by (induction pre) (auto split: option.splits)

lemma re_search_infix: "rmatch r s [] \<noteq> [] \<Longrightarrow> re_search r (pre @ s) \<noteq> None"
  by (simp add: re_match_some re_search_here re_search_later)

lemma lower_candidate: "lower ''candidate'' = ''candidate''"
  by code_simp

lemma lower_answer: "lower '' answer'' = '' answer''"
  by code_simp

lemma lower_is_correct: "lower '' is correct'' = '' is correct''"
  by code_simp

lemma lower_s_correct:
  "lower (''candidate'' @ [CHR 0x27] @ ''s correct'') = ''candidate'' @ [CHR 0x27] @ ''s correct''"
  by code_simp

lemma correct1_long:
  assumes "lower mid = ''candidate answer is correct''"
  shows "rmatch (correct_patterns ! 0) (mid @ post) [] \<noteq> []"
proof -
  have "lower mid = ''candidate'' @ '' answer'' @ '' is correct''" using assms by simp
  then obtain m1 m23 where 1: "mid = m1 @ m23" "lower m1 = ''candidate''"
      "lower m23 = '' answer'' @ '' is correct''"
    using lower_split by blast
  then obtain m2 m3 where 2: "m23 = m2 @ m3" "lower m2 = '' answer''" "lower m3 = '' is correct''"
    using lower_split by blast
  have a: "rmatch (lit ''candidate'') (m1 @ m2 @ m3 @ post) [] = [(m2 @ m3 @ post, [])]"
    using rmatch_lit [of m1 "''candidate''"] 1 lower_candidate by simp
  have b: "rmatch (lit '' answer'') (m2 @ m3 @ post) [] = [(m3 @ post, [])]"
    using rmatch_lit [of m2 "'' answer''"] 2 lower_answer by simp
  have c: "rmatch (lit '' is correct'') (m3 @ post) g = [(post, g)]" for g
    using rmatch_lit [of m3 "'' is correct''"] 2 lower_is_correct by simp
  show ?thesis
    using a b c 1 2 by (simp add: correct_patterns_def seqs_def)
qed

lemma correct1_short:
  assumes "lower mid = ''candidate is correct''"
  shows "rmatch (correct_patterns ! 0) (mid @ post) [] \<noteq> []"
proof -
  have "lower mid = ''candidate'' @ '' is correct''" using assms by simp
  then obtain m1 m3 where 1: "mid = m1 @ m3" "lower m1 = ''candidate''"
      "lower m3 = '' is correct''"
    using lower_split by blast
  have a: "rmatch (lit ''candidate'') (m1 @ m3 @ post) [] = [(m3 @ post, [])]"
    using rmatch_lit [of m1 "''candidate''"] 1 lower_candidate by simp
  have c: "rmatch (lit '' is correct'') (m3 @ post) g = [(post, g)]" for g
    using rmatch_lit [of m3 "'' is correct''"] 1 lower_is_correct by simp
  show ?thesis
    using a c 1 by (simp add: correct_patterns_def seqs_def)
qed

lemma correct2:
  assumes "lower mid = ''candidate'' @ [CHR 0x27] @ ''s correct''"
  shows "rmatch (correct_patterns ! 1) (mid @ post) [] \<noteq> []"
  using rmatch_lit [of mid "''candidate'' @ [CHR 0x27] @ ''s correct''" post "[]"] assms lower_s_correct
  by (simp add: correct_patterns_def)

lemma affirms_search:
  assumes "affirms response"
  shows "\<exists>p \<in> set correct_patterns. re_search p response \<noteq> None"
proof -
  from assms obtain pre mid post where r: "response = pre @ mid @ post"
    and m: "lower mid = ''candidate answer is correct'' \<or> lower mid = ''candidate is correct''
          \<or> lower mid = ''candidate'' @ [CHR 0x27] @ ''s correct''"
    unfolding affirms_def by auto
  have "re_search (correct_patterns ! 0) response \<noteq> None
        \<or> re_search (correct_patterns ! 1) response \<noteq> None"
    using m r correct1_long [of mid post] correct1_short [of mid post] correct2 [of mid post]
      re_search_infix [of _ "mid @ post" pre]
    by blast
  then show ?thesis by (auto simp: correct_patterns_def)
qed

lemma affirmsI:
  "lower mid = ''candidate answer is correct'' \<or> lower mid = ''candidate is correct''
     \<or> lower mid = ''candidate'' @ [CHR 0x27] @ ''s correct''
   \<Longrightarrow> affirms (pre @ mid @ post)"
  unfolding affirms_def by blast

lemma rmatch_groups_mono:
  "(t, h) \<in> set (rmatch r s g) \<Longrightarrow> fst ` set g \<subseteq> fst ` set h"
proof (induction r arbitrary: s g t h)
  case Eps
  then show ?case by simp
next
  case (Chr k)
  then show ?case by (cases s) (simp_all split: if_splits)
next
  case (Star k)
  then show ?case by auto
next
  case (Plus k)
  then show ?case by auto
next
  case (Opt r)
  from Opt.prems have "(t, h) \<in> set (rmatch r s g) \<or> (t, h) = (s, g)" by auto
  then show ?case using Opt.IH by blast
next
  case (Seq r1 r2)
  from Seq.prems obtain u k where u: "(u, k) \<in> set (rmatch r1 s g)"
    and t: "(t, h) \<in> set (rmatch r2 u k)"
    by auto
  have "fst ` set g \<subseteq> fst ` set k" using Seq.IH(1) [OF u] .
  moreover have "fst ` set k \<subseteq> fst ` set h" using Seq.IH(2) [OF t] .
  ultimately show ?case by (rule subset_trans)
next
  case (Alt r1 r2)
  from Alt.prems have "(t, h) \<in> set (rmatch r1 s g) \<or> (t, h) \<in> set (rmatch r2 s g)" by simp
  then show ?case using Alt.IH by blast
next
  case (Group j r)
  from Group.prems obtain h' where h': "(t, h') \<in> set (rmatch r s g)"
    and h: "h = (j, take (length s - length t) s) # h'"
    by auto
  have "fst ` set g \<subseteq> fst ` set h'" using Group.IH [OF h'] .
  then show ?case unfolding h by auto
next
  case Eol
  then show ?case by (cases s) (simp_all split: if_splits)
qed

lemma rmatch_binds:
  "(t, h) \<in> set (rmatch r s g) \<Longrightarrow> binds r i \<Longrightarrow> i \<in> fst ` set h"
proof (induction r arbitrary: s g t h)
  case (Seq r1 r2)
  from Seq.prems(1) obtain u k where u: "(u, k) \<in> set (rmatch r1 s g)"
    and t: "(t, h) \<in> set (rmatch r2 u k)"
    by auto
  show ?case
  proof (cases "binds r1 i")
    case True
    then have "i \<in> fst ` set k" using Seq.IH(1) [OF u] by simp
    then show ?thesis using rmatch_groups_mono [OF t] by blast
  next
    case False
    then have "binds r2 i" using Seq.prems(2) by simp
    then show ?thesis using Seq.IH(2) [OF t] by simp
  qed
next
  case (Alt r1 r2)
  from Alt.prems(1) have "(t, h) \<in> set (rmatch r1 s g) \<or> (t, h) \<in> set (rmatch r2 s g)"
    by simp
  then show ?case using Alt.IH Alt.prems(2) by auto
next
  case (Group j r)
  from Group.prems(1) obtain h' where h': "(t, h') \<in> set (rmatch r s g)"
    and h: "h = (j, take (length s - length t) s) # h'"
    by auto
  show ?case
  proof (cases "i = j")
    case True
    then show ?thesis unfolding h by simp
  next
    case False
    then have "binds r i" using Group.prems(2) by simp
    then have "i \<in> fst ` set h'" using Group.IH [OF h'] by simp
    then show ?thesis unfolding h by simp
  qed
qed simp_all

lemma re_match_group:
  assumes "re_match r s = Some g" "binds r i"
  shows "group g i \<noteq> None"
proof -
  from assms(1) obtain t where "(t, g) \<in> set (rmatch r s [])"
    by (auto simp: re_match_def split: list.splits)
  then have "i \<in> fst ` set g" using rmatch_binds assms(2) by blast
  then show ?thesis by (simp add: group_def map_of_eq_None_iff)
qed

lemma first_pattern_total:
  "list_all (\<lambda>p. binds (fst p) (snd p)) ps \<Longrightarrow> \<exists>a. first_pattern ps response = Inr a"
proof (induction ps)
  case Nil
  then show ?case by simp
next
  case (Cons p ps)
  obtain r i where p: "p = (r, i)" by (cases p)
  show ?case
  proof (cases "re_match r response")
    case None
    then show ?thesis using Cons p by simp
  next
    case (Some g)
    then have "group g i \<noteq> None" using re_match_group Cons.prems p by simp
    then show ?thesis using Some p by auto
  qed
qed

lemma patterns_bind: "list_all (\<lambda>p. binds (fst p) (snd p)) patterns"
  by code_simp

lemma parse_response_total:
  "\<exists>j logged. parse_response response candidate_answer question = Inr (j, logged)
     \<and> (j = 0 \<or> j = 1)"
proof -
  obtain a where "first_pattern patterns response = Inr a"
    using first_pattern_total [OF patterns_bind] by blast
  then show ?thesis
    by (simp add: parse_response_def yes_bit_def Let_def)
qed

text \<open>
  C2. A response that does not start with yes or no, that no pattern of the first list
  matches and in which no pattern of the second list is found is judged 0, and one warning
  is logged, whose text holds the question and the candidate answer. The empty response
  and "I'm not sure what to say" are such responses.
\<close>

theorem parse_response_default_reject:
  "(unmatched response \<and> unaffirmed response \<longrightarrow>
      parse_response response candidate_answer question
        = Inr (0, [Warning (invalid_response question candidate_answer response)]))
   \<and> contains question (invalid_response question candidate_answer response)
   \<and> contains candidate_answer (invalid_response question candidate_answer response)
   \<and> unmatched [] \<and> unaffirmed []
   \<and> unmatched (''I'' @ [CHR 0x27] @ ''m not sure what to say'')
   \<and> unaffirmed (''I'' @ [CHR 0x27] @ ''m not sure what to say'')"
proof -
  have "parse_response response candidate_answer question
        = Inr (0, [Warning (invalid_response question candidate_answer response)])"
    if "unmatched response" "unaffirmed response"
    using parse_response_unmatched [OF that(1)] first_correct_none [of response correct_patterns]
      that(2)
    by (simp add: unaffirmed_def)
  moreover have "contains question (invalid_response question candidate_answer response)"
    unfolding invalid_response_def by (rule contains_infix)
  moreover have "contains candidate_answer (invalid_response question candidate_answer response)"
    using contains_infix [of candidate_answer "''Invalid response to `'' @ question @ ''` & `''"
        "''`: '' @ response"]
    by (simp add: invalid_response_def)
  moreover have "unmatched []" by code_simp
  moreover have "unaffirmed []" by code_simp
  moreover have "unmatched (''I'' @ [CHR 0x27] @ ''m not sure what to say'')" by code_simp
  moreover have "unaffirmed (''I'' @ [CHR 0x27] @ ''m not sure what to say'')" by code_simp
  ultimately show ?thesis by blast
qed

theorem parse_response_default_reject_witness:
  "unmatched (''I'' @ [CHR 0x27] @ ''m not sure what to say'')
   \<and> unaffirmed (''I'' @ [CHR 0x27] @ ''m not sure what to say'')
   \<and> parse_response (''I'' @ [CHR 0x27] @ ''m not sure what to say'') ''Biden'' ''who?''
       = Inr (0, [Warning (''Invalid response to `who?` & `Biden`: I'' @ [CHR 0x27]
                            @ ''m not sure what to say'')])"
  using parse_response_default_reject
    [of "''I'' @ [CHR 0x27] @ ''m not sure what to say''" "''Biden''" "''who?''"]
  by (simp add: invalid_response_def)

text \<open>
  C7. "I would say no." is judged 0 and "My final judgment is yes." is judged 1, whatever
  the candidate answer and the question are. Neither starts with yes or no: the judgment
  is the token of the first pattern of the list that matches, capitalized.
\<close>

theorem parse_response_cascade_examples:
  "parse_response ''I would say no.'' candidate_answer question = Inr (0, [])
   \<and> parse_response ''My final judgment is yes.'' candidate_answer question = Inr (1, [])
   \<and> \<not> startswith (lower ''I would say no.'') ''yes''
   \<and> \<not> startswith (lower ''I would say no.'') ''no''
   \<and> first_pattern patterns ''I would say no.'' = Inr ''No''
   \<and> \<not> startswith (lower ''My final judgment is yes.'') ''yes''
   \<and> \<not> startswith (lower ''My final judgment is yes.'') ''no''
   \<and> first_pattern patterns ''My final judgment is yes.'' = Inr ''Yes''"
  by code_simp

text \<open>
  C8. A response that does not start with yes or no, that no pattern of the first list
  matches, and that holds "candidate answer is correct", "candidate is correct" or
  "candidate's correct" somewhere, in any case, is judged 1 without a warning.
  "The candidate answer is correct because..." is such a response.
\<close>

theorem parse_response_indirect_affirmation:
  "(unmatched response \<and> affirms response \<longrightarrow>
      parse_response response candidate_answer question = Inr (1, []))
   \<and> unmatched ''The candidate answer is correct because...''
   \<and> affirms ''The candidate answer is correct because...''
   \<and> parse_response ''The candidate answer is correct because...'' candidate_answer question
       = Inr (1, [])"
proof -
  have g: "parse_response r candidate_answer question = Inr (1, [])"
    if "unmatched r" "affirms r" for r
    using parse_response_unmatched [OF that(1)] first_correct_some [OF affirms_search [OF that(2)]]
    by (simp add: yes_bit_def)
  have u: "unmatched ''The candidate answer is correct because...''"
    by code_simp
  have "lower ''candidate answer is correct'' = ''candidate answer is correct''"
    by code_simp
  then have "affirms (''The '' @ ''candidate answer is correct'' @ '' because...'')"
    by (intro affirmsI) simp
  then have a: "affirms ''The candidate answer is correct because...''"
    by simp
  show ?thesis using g [of response] g [OF u a] u a by blast
qed

theorem parse_response_indirect_affirmation_witness:
  "unmatched ''Well: the Candidate IS Correct, I think''
   \<and> affirms ''Well: the Candidate IS Correct, I think''
   \<and> parse_response ''Well: the Candidate IS Correct, I think'' ''Biden'' ''who?'' = Inr (1, [])"
proof -
  have u: "unmatched ''Well: the Candidate IS Correct, I think''"
    by code_simp
  have "lower ''Candidate IS Correct'' = ''candidate is correct''"
    by code_simp
  then have "affirms (''Well: the '' @ ''Candidate IS Correct'' @ '', I think'')"
    by (intro affirmsI) simp
  then have a: "affirms ''Well: the Candidate IS Correct, I think''"
    by simp
  show ?thesis
    using u a parse_response_indirect_affirmation
      [of "''Well: the Candidate IS Correct, I think''" "''Biden''" "''who?''"]
    by blast
qed

end
